theory Spec2Isabelle
  imports Main
begin

section \<open>JavaScript values and plain objects\<close>

text \<open>
  The hook \<open>useAxios\<close> handles three kinds of plain objects: the request configuration,
  the payload of a call and the \<open>urlParams\<close> record inside a payload. A plain object is an
  association list of its own properties in insertion order; a value is one of the
  primitives the interfaces \<open>Payload\<close> and \<open>AxiosRequestConfig\<close> mention, a nested plain
  object, or the abort signal of a cancellation handle (named by the handle's number).
  Numbers are the integers that JavaScript prints in plain decimal notation.
\<close>

datatype val =
    JUndefined
  | JNull
  | JBool bool
  | JNum int
  | JStr string
  | JObj "(string \<times> val) list"
  | JSignal nat

type_synonym obj = "(string \<times> val) list"

text \<open>Reading a property of a plain object: an absent key reads as \<open>undefined\<close>.
  Only own properties are modelled (nothing is inherited from a prototype).\<close>

definition get :: "obj \<Rightarrow> string \<Rightarrow> val" where
  "get ob k = (case map_of ob k of None \<Rightarrow> JUndefined | Some v \<Rightarrow> v)"

text \<open>\<open>v[key]\<close> for an arbitrary value: by the type of \<open>Payload.urlParams\<close> the value is a
  record whenever it is truthy; a primitive has no own property of that name.\<close>

fun get_prop :: "val \<Rightarrow> string \<Rightarrow> val" where
  "get_prop (JObj ob) k = get ob k"
| "get_prop v k = JUndefined"

text \<open>Writing a property \<open>target[k] = v\<close>: an existing key keeps its place, a new key is
  appended.\<close>

fun put :: "string \<Rightarrow> val \<Rightarrow> obj \<Rightarrow> obj" where
  "put k v [] = [(k, v)]"
| "put k v (p # ps) = (if fst p = k then (k, v) # ps else p # put k v ps)"

text \<open>One source of \<open>Object.assign\<close>: every own property of the source is written to the
  target, in the source's order.\<close>

fun assign1 :: "obj \<Rightarrow> obj \<Rightarrow> obj" where
  "assign1 target [] = target"
| "assign1 target (p # ps) = assign1 (put (fst p) (snd p) target) ps"

text \<open>\<open>Object.assign(target, ...sources)\<close>: sources are applied from left to right, an
  \<open>undefined\<close> source (\<open>None\<close>) is skipped.\<close>

fun Object_assign :: "obj \<Rightarrow> obj option list \<Rightarrow> obj" where
  "Object_assign target [] = target"
| "Object_assign target (None # srcs) = Object_assign target srcs"
| "Object_assign target (Some src # srcs) = Object_assign (assign1 target src) srcs"

text \<open>The rest pattern \<open>{ urlParams, ...restPayload } = p\<close>: every own property of \<open>p\<close> but
  the named one.\<close>

definition rest_without :: "string \<Rightarrow> obj \<Rightarrow> obj" where
  "rest_without k ob = filter (\<lambda>p. fst p \<noteq> k) ob"

text \<open>Truthiness, as the test \<open>isDynamicURL && urlParams\<close> uses it.\<close>

fun truthy :: "val \<Rightarrow> bool" where
  "truthy JUndefined = False"
| "truthy JNull = False"
| "truthy (JBool b) = b"
| "truthy (JNum n) = (n \<noteq> 0)"
| "truthy (JStr s) = (s \<noteq> [])"
| "truthy (JObj ob) = True"
| "truthy (JSignal h) = True"

text \<open>\<open>String(v)\<close>. Decimal digits of a natural number first.\<close>

fun digits :: "nat \<Rightarrow> string" where
  "digits n =
     (if n < 10 then [''0123456789'' ! n]
      else digits (n div 10) @ [''0123456789'' ! (n mod 10)])"

declare digits.simps [simp del]

fun String_js :: "val \<Rightarrow> string" where
  "String_js JUndefined = ''undefined''"
| "String_js JNull = ''null''"
| "String_js (JBool b) = (if b then ''true'' else ''false'')"
| "String_js (JNum n) = (if n < 0 then CHR ''-'' # digits (nat (- n)) else digits (nat n))"
| "String_js (JStr s) = s"
| "String_js (JObj ob) = ''[object Object]''"
| "String_js (JSignal h) = ''[object AbortSignal]''"

section \<open>URL templates\<close>

text \<open>The class \<open>\w\<close> of the two regular expressions: ASCII letters, digits and the
  underscore.\<close>

definition is_word :: "char \<Rightarrow> bool" where
  "is_word c = (c \<in> set ''abcdefghijklmnopqrstuvwxyzABCDEFGHIJKLMNOPQRSTUVWXYZ0123456789_'')"

text \<open>
  A match of \<open>/\{(\w+)\}/\<close> at the very start of a string: an opening brace, the longest
  run of word characters, which must not be empty, and a closing brace right after it.
  (The run is greedy, and no shorter run can be followed by a brace, since the character
  after a shorter run is a word character.) The result is the captured key and the text
  after the match.
\<close>

definition match_here :: "string \<Rightarrow> (string \<times> string) option" where
  "match_here s =
     (case s of
        [] \<Rightarrow> None
      | c # t \<Rightarrow>
          if c = CHR ''{'' then
            (let key = takeWhile is_word t; r = dropWhile is_word t in
             if key \<noteq> [] \<and> r \<noteq> [] \<and> hd r = CHR ''}'' then Some (key, tl r) else None)
          else None)"

text \<open>\<open>/\{\w+\}/.test(url)\<close>: is there a match anywhere in the string.\<close>

fun test_re :: "string \<Rightarrow> bool" where
  "test_re [] = False"
| "test_re (c # cs) = (case match_here (c # cs) of Some m \<Rightarrow> True | None \<Rightarrow> test_re cs)"

text \<open>
  \<open>url.replace(/\{(\w+)\}/, (_, key) => f(key))\<close>: the regular expression carries no
  \<open>g\<close> flag, so the leftmost match is replaced by what the replacer returns for its key,
  and the text after that match is copied as it is.
\<close>

fun replace_re :: "(string \<Rightarrow> string) \<Rightarrow> string \<Rightarrow> string" where
  "replace_re f [] = []"
| "replace_re f (c # cs) =
     (case match_here (c # cs) of
        Some m \<Rightarrow> f (fst m) @ snd m
      | None \<Rightarrow> c # replace_re f cs)"

section \<open>Transport, responses and errors\<close>

text \<open>An \<open>AxiosResponse\<close> carries its parsed body \<open>res.data\<close> and the status code.\<close>

datatype 'd AxiosResponse = AxiosResponse (res_data: 'd) (status: nat)

text \<open>What the transport rejects with: an ordinary failure or a cancellation, each with
  its message. \<open>axios.isCancel\<close> holds of the cancellations only, and not of \<open>undefined\<close>.\<close>

datatype error = AxiosError string | CanceledError string

fun axios_isCancel :: "error option \<Rightarrow> bool" where
  "axios_isCancel None = False"
| "axios_isCancel (Some (AxiosError m)) = False"
| "axios_isCancel (Some (CanceledError m)) = True"

text \<open>How one invocation of the transport settles.\<close>

datatype 'd outcome = Resolved "'d AxiosResponse" | Rejected error

text \<open>
  \<open>executeWithRetry(asyncFn, time)\<close>. The argument \<open>asyncFn k\<close> says how the invocation
  number \<open>k\<close> of the transport settles (counting from 0); the third argument is the number
  of invocations made so far and is returned, increased, beside the pair \<open>[res, err]\<close> the
  promise resolves with. The test \<open>time-- > 0\<close> compares the old value of \<open>time\<close>. The retry
  count is an integer.
\<close>

function executeWithRetry ::
  "(nat \<Rightarrow> 'd outcome) \<Rightarrow> int \<Rightarrow> nat \<Rightarrow> ('d AxiosResponse option \<times> error option) \<times> nat" where
  "executeWithRetry asyncFn time k =
     (case asyncFn k of
        Resolved res \<Rightarrow> ((Some res, None), Suc k)
      | Rejected err \<Rightarrow>
          if time > 0 then executeWithRetry asyncFn (time - 1) (Suc k)
          else ((None, Some err), Suc k))"
  by pat_completeness auto
termination
  by (relation "measure (\<lambda>(asyncFn, time, k). nat time)") auto

declare executeWithRetry.simps [simp del]

section \<open>The hook \<open>useAxios\<close>\<close>

subsection \<open>Options and state\<close>

text \<open>The option \<open>payload\<close> is a payload or a function producing one.\<close>

datatype payload_option = PayloadValue obj | PayloadFn "unit \<Rightarrow> obj"

text \<open>
  The options after the destructuring of lines 46 to 55, which puts \<open>false\<close> and \<open>0\<close> in
  the place of absent fields. \<open>payload\<close> stays optional. The three callbacks are opaque to
  the hook: the model keeps whether each one is supplied and records every invocation,
  with its arguments, in the state (\<open>calls\<close>). A callback is taken to return normally
  and not to call back into the hook.
\<close>

record options =
  autoCancelLastReq :: bool
  autoCancelOnUnmounted :: bool
  immediate :: bool
  payload :: "payload_option option"
  retry :: int
  onSuccess :: bool
  onError :: bool
  onFinish :: bool

text \<open>The options of a call \<open>useAxios(url)\<close> that passes none (the defaults of lines 43 to
  55).\<close>

definition default_options :: options where
  "default_options = \<lparr> autoCancelLastReq = False, autoCancelOnUnmounted = False,
     immediate = False, payload = None, retry = 0, onSuccess = False, onError = False,
     onFinish = False \<rparr>"

datatype 'd callback = OnSuccess 'd "'d AxiosResponse" | OnError error | OnFinish

text \<open>
  The state of one hook instance: the five reactive cells, the variable \<open>controller\<close> of
  line 95 (the number of the current \<open>AbortController\<close>, or \<open>None\<close> while it is
  \<open>undefined\<close>), the controllers created so far (\<open>controllers ! h\<close> is the \<open>aborted\<close> flag
  of controller \<open>h\<close>), and the callback invocations, oldest first.
\<close>

record 'd state =
  response :: "'d AxiosResponse option"
  data :: "'d option"
  error :: "error option"
  isLoading :: bool
  isFinished :: bool
  controller :: "nat option"
  controllers :: "bool list"
  calls :: "'d callback list"

definition initial :: "'d state" where
  "initial = \<lparr> response = None, data = None, error = None, isLoading = False,
     isFinished = False, controller = None, controllers = [], calls = [] \<rparr>"

text \<open>What \<open>execute\<close> resolves with (\<open>ExecuteReturn\<close>).\<close>

datatype 'd ExecuteReturn =
  ExecuteReturn (ret_response: "'d AxiosResponse option") (ret_data: "'d option")
    (ret_error: "error option") (isCancel: bool)

subsection \<open>\<open>cancel\<close>\<close>

text \<open>\<open>controller?.abort()\<close>: sets the flag of the current controller, if there is one.\<close>

definition abort_current :: "'d state \<Rightarrow> 'd state" where
  "abort_current s =
     (case controller s of
        None \<Rightarrow> s
      | Some h \<Rightarrow> s\<lparr> controllers := (controllers s)[h := True] \<rparr>)"

text \<open>Lines 96 to 100. The function returns at once while \<open>isLoading\<close> is true.\<close>

definition cancel :: "'d state \<Rightarrow> 'd state" where
  "cancel s = (if isLoading s then s else (abort_current s)\<lparr> isLoading := False \<rparr>)"

subsection \<open>\<open>execute\<close>\<close>

text \<open>Line 57: the default payload.\<close>

definition defaultPayload :: "options \<Rightarrow> obj option" where
  "defaultPayload opts =
     (case payload opts of
        None \<Rightarrow> None
      | Some (PayloadValue v) \<Rightarrow> Some v
      | Some (PayloadFn f) \<Rightarrow> Some (f ()))"

text \<open>Line 65.\<close>

definition isDynamicURL :: "string \<Rightarrow> bool" where
  "isDynamicURL url = test_re url"

text \<open>Lines 72 to 76: the URL of the request, from the template and the payload.\<close>

definition request_url :: "string \<Rightarrow> obj \<Rightarrow> string" where
  "request_url url p =
     (let urlParams = get p ''urlParams'' in
      if isDynamicURL url \<and> truthy urlParams
      then replace_re (\<lambda>key. String_js (get_prop urlParams key)) url
      else url)"

text \<open>Lines 73 and 77: the configuration of the request, for the controller \<open>h\<close>.\<close>

definition request_config :: "obj option \<Rightarrow> obj \<Rightarrow> nat \<Rightarrow> obj" where
  "request_config config p h =
     (let restPayload = rest_without ''urlParams'' p in
      Object_assign [] [config, Some restPayload, Some [(''signal'', JSignal h)]])"

text \<open>
  \<open>execute\<close> is an async function: it runs from its call to the \<open>await\<close> of line 81
  (\<open>execute_start\<close>) and, once the promise of \<open>executeWithRetry\<close> has resolved, from there
  to its return (\<open>execute_finish\<close>). Each half runs without interruption; other calls of
  \<open>execute\<close> and \<open>cancel\<close> may run between the two.

  \<open>execute_start\<close> is lines 67 to 80. The argument is \<open>None\<close> when \<open>execute\<close> is called with
  no argument (or with \<open>undefined\<close>, which a default parameter treats alike). The result is
  the new state and the URL and configuration handed to the transport.
\<close>

definition execute_start ::
  "options \<Rightarrow> string \<Rightarrow> obj option \<Rightarrow> obj option \<Rightarrow> 'd state \<Rightarrow> 'd state \<times> string \<times> obj" where
  "execute_start opts url config arg s =
     (let payload = (case arg of None \<Rightarrow> defaultPayload opts | Some p \<Rightarrow> Some p);
          s1 = (if autoCancelLastReq opts then cancel s else s);
          h = length (controllers s1);
          s2 = s1\<lparr> controller := Some h, controllers := controllers s1 @ [False] \<rparr>;
          p = (case payload of None \<Rightarrow> [] | Some p \<Rightarrow> p);
          s3 = s2\<lparr> isLoading := True, isFinished := False \<rparr>
      in (s3, request_url url p, request_config config p h))"

text \<open>\<open>execute_finish\<close> is lines 82 to 92, given the pair \<open>[res, err]\<close>.\<close>

definition record_call :: "bool \<Rightarrow> 'd callback \<Rightarrow> 'd state \<Rightarrow> 'd state" where
  "record_call supplied c s = (if supplied then s\<lparr> calls := calls s @ [c] \<rparr> else s)"

definition execute_finish ::
  "options \<Rightarrow> 'd AxiosResponse option \<times> error option \<Rightarrow> 'd state \<Rightarrow> 'd state \<times> 'd ExecuteReturn" where
  "execute_finish opts r s =
     (let res = fst r; err = snd r in
      if axios_isCancel err then (s, ExecuteReturn None None None True)
      else
        let s1 = s\<lparr> response := res, data := map_option res_data res, error := err,
                    isLoading := False \<rparr>;
            s2 = (case res of
                    Some rs \<Rightarrow> record_call (onSuccess opts) (OnSuccess (res_data rs) rs) s1
                  | None \<Rightarrow>
                      (case err of
                         Some e \<Rightarrow> record_call (onError opts) (OnError e) s1
                       | None \<Rightarrow> s1));
            s3 = s2\<lparr> isFinished := True \<rparr>;
            s4 = record_call (onFinish opts) OnFinish s3
        in (s4, ExecuteReturn res (map_option res_data res) err False))"

text \<open>
  The transport \<open>instance\<close>: for a URL and a configuration, how its successive invocations
  settle. Every invocation is taken to settle.
\<close>

type_synonym 'd transport = "string \<Rightarrow> obj \<Rightarrow> nat \<Rightarrow> 'd outcome"

text \<open>The function \<open>() => instance(_url, _config)\<close> of line 81, for the call of \<open>execute\<close>
  with argument \<open>arg\<close> in state \<open>s\<close>: how its successive invocations settle.\<close>

definition transport_call ::
  "options \<Rightarrow> string \<Rightarrow> obj option \<Rightarrow> 'd transport \<Rightarrow> obj option \<Rightarrow> 'd state \<Rightarrow>
     nat \<Rightarrow> 'd outcome" where
  "transport_call opts url config instance arg s =
     (let st = execute_start opts url config arg s in
      instance (fst (snd st)) (snd (snd st)))"

text \<open>What the request of one call of \<open>execute\<close> ends with: the pair \<open>[res, err]\<close> of line 81
  and the number of invocations of the transport.\<close>

definition request_result ::
  "options \<Rightarrow> string \<Rightarrow> obj option \<Rightarrow> 'd transport \<Rightarrow> obj option \<Rightarrow> 'd state \<Rightarrow>
     ('d AxiosResponse option \<times> error option) \<times> nat" where
  "request_result opts url config instance arg s =
     executeWithRetry (transport_call opts url config instance arg s) (retry opts) 0"

text \<open>One whole call of \<open>execute\<close> with nothing running between its two halves.\<close>

definition execute ::
  "options \<Rightarrow> string \<Rightarrow> obj option \<Rightarrow> 'd transport \<Rightarrow> obj option \<Rightarrow> 'd state \<Rightarrow>
     'd state \<times> 'd ExecuteReturn" where
  "execute opts url config instance arg s =
     execute_finish opts
       (fst (request_result opts url config instance arg s))
       (fst (execute_start opts url config arg s))"

subsection \<open>Calls that overlap\<close>

text \<open>
  What can happen to a hook instance, one uninterrupted piece of code at a time: a call
  of \<open>execute\<close> runs to its \<open>await\<close>; \<open>cancel\<close> is called; the component is unmounted; or
  the request of the call that created controller \<open>h\<close> settles with a pair \<open>[res, err]\<close> and
  that call runs to its return. The hook is taken to be set up inside a component, so
  that line 102 registers \<open>cancel\<close> whenever \<open>autoCancelOnUnmounted\<close> is set.
\<close>

datatype 'd action =
    Execute "obj option"
  | Cancel
  | Unmounted
  | Settle nat "'d AxiosResponse option \<times> error option"

text \<open>The system is the state of the hook and the calls of \<open>execute\<close> that wait at their
  \<open>await\<close>, each named by the controller it created, oldest first.\<close>

type_synonym 'd system = "'d state \<times> nat list"

fun step :: "options \<Rightarrow> string \<Rightarrow> obj option \<Rightarrow> 'd system \<Rightarrow> 'd action \<Rightarrow> 'd system" where
  "step opts url config (s, waiting) (Execute arg) =
     (let s' = fst (execute_start opts url config arg s)
      in (s', (case controller s' of None \<Rightarrow> waiting | Some h \<Rightarrow> waiting @ [h])))"
| "step opts url config (s, waiting) Cancel = (cancel s, waiting)"
| "step opts url config (s, waiting) Unmounted =
     ((if autoCancelOnUnmounted opts then cancel s else s), waiting)"
| "step opts url config (s, waiting) (Settle h r) =
     (if h \<in> set waiting then (fst (execute_finish opts r s), remove1 h waiting)
      else (s, waiting))"

text \<open>Lines 59 to 63, 95 and 104: the instance as \<open>useAxios\<close> returns it.\<close>

definition useAxios :: "string \<Rightarrow> obj option \<Rightarrow> options \<Rightarrow> 'd system" where
  "useAxios url config opts =
     (if immediate opts then step opts url config (initial, []) (Execute None)
      else (initial, []))"

definition run :: "options \<Rightarrow> string \<Rightarrow> obj option \<Rightarrow> 'd action list \<Rightarrow> 'd system" where
  "run opts url config acts = foldl (step opts url config) (useAxios url config opts) acts"

text \<open>The requests in flight: the calls that wait and whose controller has not been
  aborted.\<close>

definition in_flight :: "'d system \<Rightarrow> nat list" where
  "in_flight sys = filter (\<lambda>h. \<not> controllers (fst sys) ! h) (snd sys)"

subsection \<open>The configuration object on the heap\<close>

text \<open>
  Whether \<open>execute\<close> changes the objects it is given depends on which object
  \<open>Object.assign\<close> writes to. Here objects live on a heap, a list of plain objects indexed by
  address, and lines 73 and 77 allocate and write as the source does: \<open>payload ?? {}\<close>
  allocates an empty object only when there is no payload, the rest pattern allocates
  \<open>restPayload\<close>, the two object literals of line 77 are new, and \<open>Object.assign\<close> writes to
  its first argument only.
\<close>

type_synonym heap = "obj list"

fun heap_assign :: "heap \<Rightarrow> nat \<Rightarrow> nat option list \<Rightarrow> heap" where
  "heap_assign hp target [] = hp"
| "heap_assign hp target (None # srcs) = heap_assign hp target srcs"
| "heap_assign hp target (Some a # srcs) =
     heap_assign (hp[target := assign1 (hp ! target) (hp ! a)]) target srcs"

definition heap_request_config :: "heap \<Rightarrow> nat option \<Rightarrow> nat option \<Rightarrow> nat \<Rightarrow> heap \<times> nat" where
  "heap_request_config hp config arg h =
     (let hp1 = (case arg of None \<Rightarrow> hp @ [[]] | Some a \<Rightarrow> hp);
          p = (case arg of None \<Rightarrow> length hp | Some a \<Rightarrow> a);
          restPayload = length hp1;
          hp2 = hp1 @ [rest_without ''urlParams'' (hp1 ! p)];
          target = length hp2;
          hp3 = hp2 @ [[]];
          sig = length hp3;
          hp4 = hp3 @ [[(''signal'', JSignal h)]]
      in (heap_assign hp4 target [config, Some restPayload, Some sig], target))"

section \<open>Properties\<close>

subsection \<open>Plain objects\<close>

lemma map_of_put: "map_of (put k v ob) = (map_of ob)(k \<mapsto> v)"
  by (induction ob) (auto simp: fun_eq_iff)

lemma keys_put: "fst ` set (put k v ob) = insert k (fst ` set ob)"
  by (induction ob) auto

lemma distinct_put: "distinct (map fst ob) \<Longrightarrow> distinct (map fst (put k v ob))"
  by (induction ob) (auto simp: keys_put)

lemma distinct_assign1: "distinct (map fst target) \<Longrightarrow> distinct (map fst (assign1 target src))"
  by (induction src arbitrary: target) (auto simp: distinct_put)

lemma map_of_assign1:
  "distinct (map fst src) \<Longrightarrow> map_of (assign1 target src) = map_of target ++ map_of src"
proof (induction src arbitrary: target)
  case Nil
  then show ?case by simp
next
  case (Cons p ps)
  have "fst p \<notin> dom (map_of ps)"
    using Cons.prems by (auto simp: dom_map_of_conv_image_fst)
  then have "map_of ps (fst p) = None" by blast
  with Cons show ?case
    by (cases p) (auto simp: map_of_put fun_eq_iff map_add_def split: option.splits)
qed

lemma map_of_rest_without: "map_of (rest_without k ob) = (map_of ob)(k := None)"
  unfolding rest_without_def by (induction ob) (auto simp: fun_eq_iff)

lemma distinct_rest_without: "distinct (map fst ob) \<Longrightarrow> distinct (map fst (rest_without k ob))"
  unfolding rest_without_def by (simp add: distinct_map_filter)

lemma get_put_same: "get (put k v ob) k = v"
  by (simp add: get_def map_of_put)

subsection \<open>Retry\<close>

text \<open>
  What \<open>executeWithRetry\<close> does from invocation \<open>k\<close> on with \<open>t\<close> retries left: it makes at
  least one and at most \<open>nat t + 1\<close> invocations, every invocation but the last was
  rejected, and the last one either resolved, and its response is the result, or was
  rejected after all retries had been spent, and its error is the result.
\<close>

lemma executeWithRetry_spec:
  "executeWithRetry f t k = (r, n) \<Longrightarrow>
     k < n \<and> n \<le> k + nat t + 1 \<and>
     (\<forall>i. k \<le> i \<and> i < n - 1 \<longrightarrow> (\<exists>e. f i = Rejected e)) \<and>
     (case f (n - 1) of
        Resolved res \<Rightarrow> r = (Some res, None)
      | Rejected e \<Rightarrow> r = (None, Some e) \<and> n = k + nat t + 1)"
proof (induction f t k arbitrary: r n rule: executeWithRetry.induct)
  case (1 f t k)
  show ?case
  proof (cases "f k")
    case (Resolved res)
    with "1.prems" show ?thesis
      by (auto simp: executeWithRetry.simps [of f t k])
  next
    case (Rejected err)
    show ?thesis
    proof (cases "t > 0")
      case False
      with Rejected "1.prems" show ?thesis
        by (auto simp: executeWithRetry.simps [of f t k])
    next
      case True
      with Rejected "1.prems" have rec: "executeWithRetry f (t - 1) (Suc k) = (r, n)"
        by (simp add: executeWithRetry.simps [of f t k])
      note ih = "1.IH" [OF Rejected True rec]
      from ih have a: "Suc k < n" and b: "n \<le> Suc k + nat (t - 1) + 1" by auto
      from True have c: "Suc k + nat (t - 1) = k + nat t" by simp
      have d: "\<forall>i. k \<le> i \<and> i < n - 1 \<longrightarrow> (\<exists>e. f i = Rejected e)"
      proof (intro allI impI)
        fix i assume "k \<le> i \<and> i < n - 1"
        then show "\<exists>e. f i = Rejected e"
          using ih Rejected by (cases "i = k") auto
      qed
      from ih a b c d show ?thesis by (auto split: outcome.splits)
    qed
  qed
qed

text \<open>
  Claim C3. For a retry count \<open>n \<ge> 0\<close>, let \<open>executeWithRetry\<close> resolve with \<open>r\<close> after \<open>m\<close>
  invocations of the transport. Then \<open>m\<close> is at least 1 and at most \<open>n + 1\<close>; each of the
  invocations before the last was rejected (and followed at once by the next); and the
  last invocation either resolved, in which case its response, the first successful one,
  is the result, or was rejected, in which case all \<open>n\<close> retries were spent (\<open>m = n + 1\<close>)
  and its error is the result.
\<close>

theorem retry_count_honored:
  assumes "0 \<le> n" and "executeWithRetry asyncFn n 0 = (r, m)"
  shows "1 \<le> m \<and> int m \<le> n + 1 \<and>
     (\<forall>i < m - 1. \<exists>e. asyncFn i = Rejected e) \<and>
     (case asyncFn (m - 1) of
        Resolved res \<Rightarrow> r = (Some res, None)
      | Rejected e \<Rightarrow> r = (None, Some e) \<and> int m = n + 1)"
proof -
  note sp = executeWithRetry_spec [OF assms(2)]
  from sp have "0 < m" and "m \<le> nat n + 1" by auto
  with assms(1) have b: "1 \<le> m \<and> int m \<le> n + 1" by linarith
  from sp have c: "\<forall>i < m - 1. \<exists>e. asyncFn i = Rejected e" by auto
  from sp assms(1) have d: "case asyncFn (m - 1) of
        Resolved res \<Rightarrow> r = (Some res, None)
      | Rejected e \<Rightarrow> r = (None, Some e) \<and> int m = n + 1"
    by (auto split: outcome.splits)
  from b c d show ?thesis by blast
qed

text \<open>With three retries and a transport that fails twice and then answers, the third
  invocation ends the loop.\<close>

theorem retry_count_honored_witness:
  "(0::int) \<le> 3 \<and>
   executeWithRetry
     (\<lambda>k. if k < 2 then Rejected (AxiosError ''down'') else Resolved (AxiosResponse (7::nat) 200))
     3 0 = ((Some (AxiosResponse 7 200), None), 3) \<and>
   (1::nat) \<le> 3 \<and> int 3 \<le> 3 + 1"
proof -
  let ?f = "\<lambda>k::nat. if k < 2 then Rejected (AxiosError ''down'')
              else Resolved (AxiosResponse (7::nat) 200)"
  have e: "executeWithRetry ?f 3 0 = ((Some (AxiosResponse 7 200), None), 3)"
    by (simp add: executeWithRetry.simps)
  have h: "(0::int) \<le> 3" by simp
  from retry_count_honored [OF h e] h e show ?thesis by simp
qed

subsection \<open>The two halves of \<open>execute\<close>\<close>

text \<open>Up to its \<open>await\<close>, a call leaves the response, data and error cells and the callback
  record alone and sets the two flags.\<close>

lemma execute_start_cells:
  "response (fst (execute_start opts url config arg s)) = response s \<and>
   data (fst (execute_start opts url config arg s)) = data s \<and>
   error (fst (execute_start opts url config arg s)) = error s \<and>
   calls (fst (execute_start opts url config arg s)) = calls s \<and>
   isLoading (fst (execute_start opts url config arg s)) \<and>
   \<not> isFinished (fst (execute_start opts url config arg s))"
  by (simp add: execute_start_def Let_def cancel_def abort_current_def split: option.splits)

text \<open>A cancellation makes the second half return at once.\<close>

lemma execute_finish_cancel:
  "axios_isCancel (snd r) \<Longrightarrow> execute_finish opts r s = (s, ExecuteReturn None None None True)"
  by (simp add: execute_finish_def Let_def)

text \<open>The second half for a request whose last attempt was rejected.\<close>

lemma execute_finish_error:
  "execute_finish opts (None, Some e) s =
     (if axios_isCancel (Some e) then (s, ExecuteReturn None None None True)
      else (record_call (onFinish opts) OnFinish
              ((record_call (onError opts) (OnError e)
                 (s\<lparr> response := None, data := None, error := Some e, isLoading := False \<rparr>))
               \<lparr> isFinished := True \<rparr>),
            ExecuteReturn None None (Some e) False))"
  by (simp add: execute_finish_def Let_def)

lemma request_config_signal: "get (request_config config p h) ''signal'' = JSignal h"
  by (cases config) (simp_all add: request_config_def get_put_same)

lemma length_controllers_cancel: "length (controllers (cancel s)) = length (controllers s)"
  by (simp add: cancel_def abort_current_def split: option.splits)

lemma execute_start_request:
  "snd (execute_start opts url config arg s) =
     (let p = (case arg of
                 None \<Rightarrow> (case defaultPayload opts of None \<Rightarrow> [] | Some d \<Rightarrow> d)
               | Some a \<Rightarrow> a)
      in (request_url url p, request_config config p (length (controllers s))))"
  by (simp add: execute_start_def Let_def length_controllers_cancel split: option.splits)

lemma execute_start_controllers:
  "controller (fst (execute_start opts url config arg s)) = Some (length (controllers s)) \<and>
   controllers (fst (execute_start opts url config arg s)) =
     controllers (if autoCancelLastReq opts then cancel s else s) @ [False]"
  by (simp add: execute_start_def Let_def length_controllers_cancel)

subsection \<open>Cancellation and errors\<close>

text \<open>No step of the hook puts a cancellation into the error cell.\<close>

lemma error_record_call: "error (record_call b c s) = error s"
  by (simp add: record_call_def)

lemma error_cancel: "error (cancel s) = error s"
  by (simp add: cancel_def abort_current_def split: option.splits)

lemma execute_finish_error_cell:
  "error (fst (execute_finish opts r s)) = (if axios_isCancel (snd r) then error s else snd r)"
  by (simp add: execute_finish_def Let_def error_record_call split: option.splits)

lemma step_error_cell:
  assumes "\<not> axios_isCancel (error (fst sys))"
  shows "\<not> axios_isCancel (error (fst (step opts url config sys a)))"
proof (cases sys)
  case (Pair s waiting)
  with assms have s: "\<not> axios_isCancel (error s)" by simp
  show ?thesis
  proof (cases a)
    case (Execute arg)
    with Pair s show ?thesis by (simp add: Let_def execute_start_cells)
  next
    case Cancel
    with Pair s show ?thesis by (simp add: error_cancel)
  next
    case Unmounted
    with Pair s show ?thesis by (simp add: error_cancel)
  next
    case (Settle h r)
    with Pair s show ?thesis by (simp add: execute_finish_error_cell)
  qed
qed

lemma useAxios_error_cell: "\<not> axios_isCancel (error (fst (useAxios url config opts)))"
  by (simp add: useAxios_def Let_def execute_start_cells initial_def)

lemma run_error_cell: "\<not> axios_isCancel (error (fst (run opts url config acts)))"
proof (induction acts rule: rev_induct)
  case Nil
  then show ?case by (simp add: run_def useAxios_error_cell)
next
  case (snoc a acts)
  then show ?case
    unfolding run_def foldl_append by (simp add: step_error_cell)
qed

text \<open>
  Claim C2. The error cell never holds a cancellation, in any state the hook reaches by
  calls of \<open>execute\<close> and \<open>cancel\<close>, unmounting and settling requests. When the request of a
  call ends with a cancellation (the error of the pair \<open>[res, err]\<close> satisfies
  \<open>axios.isCancel\<close>), the second half of \<open>execute\<close> leaves the error cell as it is and the
  call resolves with \<open>{ isCancel: true }\<close>; for a call with nothing running between its
  halves, the error cell is as before the call.
\<close>

theorem cancellation_not_stored:
  "\<not> axios_isCancel (error (fst (run opts url config acts))) \<and>
   (axios_isCancel (snd r) \<longrightarrow>
      error (fst (execute_finish opts r s)) = error s \<and>
      snd (execute_finish opts r s) = ExecuteReturn None None None True) \<and>
   (axios_isCancel (snd (fst (request_result opts url config instance arg s))) \<longrightarrow>
      error (fst (execute opts url config instance arg s)) = error s \<and>
      isCancel (snd (execute opts url config instance arg s)) \<and>
      ret_error (snd (execute opts url config instance arg s)) = None)"
  by (simp add: run_error_cell execute_def execute_finish_cancel execute_start_cells)

text \<open>A transport that answers every invocation with a cancellation, one retry, and an
  error cell that holds an earlier failure.\<close>

theorem cancellation_not_stored_witness:
  "axios_isCancel (snd (fst (request_result (default_options\<lparr> retry := 1 \<rparr>) ''/items'' None
       (\<lambda>u c k. Rejected (CanceledError ''canceled'')) None
       (initial\<lparr> error := Some (AxiosError ''earlier'') \<rparr> :: nat state)))) \<and>
   error (fst (execute (default_options\<lparr> retry := 1 \<rparr>) ''/items'' None
       (\<lambda>u c k. Rejected (CanceledError ''canceled'')) None
       (initial\<lparr> error := Some (AxiosError ''earlier'') \<rparr> :: nat state))) = Some (AxiosError ''earlier'') \<and>
   isCancel (snd (execute (default_options\<lparr> retry := 1 \<rparr>) ''/items'' None
       (\<lambda>u c k. Rejected (CanceledError ''canceled'')) None
       (initial\<lparr> error := Some (AxiosError ''earlier'') \<rparr> :: nat state))) \<and>
   axios_isCancel (snd (None :: nat AxiosResponse option, Some (CanceledError ''canceled''))) \<and>
   error (fst (execute_finish (default_options\<lparr> retry := 1 \<rparr>)
       (None, Some (CanceledError ''canceled''))
       (initial\<lparr> error := Some (AxiosError ''earlier'') \<rparr> :: nat state))) = Some (AxiosError ''earlier'')"
proof -
  let ?o = "default_options\<lparr> retry := 1 \<rparr>"
  let ?i = "(\<lambda>u c k. Rejected (CanceledError ''canceled'')) :: nat transport"
  let ?s = "initial\<lparr> error := Some (AxiosError ''earlier'') \<rparr> :: nat state"
  let ?r = "(None :: nat AxiosResponse option, Some (CanceledError ''canceled''))"
  have h: "axios_isCancel (snd (fst (request_result ?o ''/items'' None ?i None ?s)))"
    by (simp add: request_result_def transport_call_def executeWithRetry.simps default_options_def)
  have h': "axios_isCancel (snd ?r)" by simp
  from cancellation_not_stored [of ?o "''/items''" None "[]" ?r ?s ?i None] h h'
  have e: "error (fst (execute ?o ''/items'' None ?i None ?s)) = error ?s"
    and c: "isCancel (snd (execute ?o ''/items'' None ?i None ?s))"
    and f: "error (fst (execute_finish ?o ?r ?s)) = error ?s"
    by blast+
  have s: "error ?s = Some (AxiosError ''earlier'')" by (simp add: initial_def)
  from e s have e': "error (fst (execute ?o ''/items'' None ?i None ?s)) = Some (AxiosError ''earlier'')"
    by simp
  from f s have f': "error (fst (execute_finish ?o ?r ?s)) = Some (AxiosError ''earlier'')"
    by simp
  from h e' c h' f' show ?thesis by blast
qed

text \<open>
  Claim C4. Let \<open>onError\<close> be supplied, let every attempt of a request be rejected, and let
  the error \<open>e\<close> of the last attempt (attempt number \<open>retry\<close>, counting from 0) not be a
  cancellation. Then the transport was invoked \<open>retry + 1\<close> times and the request ends with
  \<open>[undefined, e]\<close>; the second half of \<open>execute\<close>, in whatever state \<open>s'\<close> it runs, stores \<open>e\<close>
  in the error cell and adds to the callback record exactly one invocation of \<open>onError\<close>,
  with \<open>e\<close>, followed by \<open>onFinish\<close> if that is supplied; and so does the whole call when
  nothing runs between its halves. The errors of the earlier attempts reach neither a
  cell nor a callback: \<open>executeWithRetry\<close> has no access to either.
\<close>

theorem final_error_reported_once:
  assumes "onError opts"
    and "\<forall>k < nat (retry opts). \<exists>e'. transport_call opts url config instance arg s k = Rejected e'"
    and "transport_call opts url config instance arg s (nat (retry opts)) = Rejected e"
    and "\<not> axios_isCancel (Some e)"
  shows "fst (request_result opts url config instance arg s) = (None, Some e) \<and>
         snd (request_result opts url config instance arg s) = nat (retry opts) + 1 \<and>
         error (fst (execute_finish opts (None, Some e) s')) = Some e \<and>
         calls (fst (execute_finish opts (None, Some e) s')) =
           calls s' @ OnError e # (if onFinish opts then [OnFinish] else []) \<and>
         error (fst (execute opts url config instance arg s)) = Some e \<and>
         calls (fst (execute opts url config instance arg s)) =
           calls s @ OnError e # (if onFinish opts then [OnFinish] else []) \<and>
         snd (execute opts url config instance arg s) = ExecuteReturn None None (Some e) False"
proof -
  let ?f = "transport_call opts url config instance arg s"
  obtain r m where rm: "executeWithRetry ?f (retry opts) 0 = (r, m)"
    by (cases "executeWithRetry ?f (retry opts) 0") auto
  note sp = executeWithRetry_spec [OF rm]
  have m: "m = nat (retry opts) + 1"
  proof (rule ccontr)
    assume ne: "m \<noteq> nat (retry opts) + 1"
    with sp have lt: "m - 1 < nat (retry opts)" by auto
    with assms(2) obtain e' where "?f (m - 1) = Rejected e'" by blast
    with sp ne show False by auto
  qed
  with sp assms(3) have r: "r = (None, Some e)" by auto
  have rr: "request_result opts url config instance arg s = ((None, Some e), nat (retry opts) + 1)"
    using rm r m by (simp add: request_result_def)
  have fin: "error (fst (execute_finish opts (None, Some e) t)) = Some e \<and>
         calls (fst (execute_finish opts (None, Some e) t)) =
           calls t @ OnError e # (if onFinish opts then [OnFinish] else []) \<and>
         snd (execute_finish opts (None, Some e) t) = ExecuteReturn None None (Some e) False" for t
    using assms(1,4) by (simp add: execute_finish_error record_call_def)
  show ?thesis
    using rr fin [of s'] fin [of "fst (execute_start opts url config arg s)"]
      execute_start_cells [of opts url config arg s]
    by (simp add: execute_def)
qed

text \<open>Two retries and a transport that fails three times with three different errors.\<close>

theorem final_error_reported_once_witness:
  "onError (default_options\<lparr> retry := 2, onError := True \<rparr>) \<and>
   error (fst (execute (default_options\<lparr> retry := 2, onError := True \<rparr>) ''/items'' None
     (\<lambda>u c k. Rejected (AxiosError (if k = 0 then ''first'' else if k = 1 then ''second'' else ''last'')))
     None (initial :: nat state))) = Some (AxiosError ''last'') \<and>
   calls (fst (execute (default_options\<lparr> retry := 2, onError := True \<rparr>) ''/items'' None
     (\<lambda>u c k. Rejected (AxiosError (if k = 0 then ''first'' else if k = 1 then ''second'' else ''last'')))
     None (initial :: nat state))) = [OnError (AxiosError ''last'')]"
proof -
  let ?o = "default_options\<lparr> retry := 2, onError := True \<rparr>"
  let ?i = "(\<lambda>u c k. Rejected (AxiosError (if k = 0 then ''first'' else if k = 1 then ''second'' else ''last''))) :: nat transport"
  let ?s = "initial :: nat state"
  have r: "nat (retry ?o) = 2" by (simp add: default_options_def)
  have h1: "onError ?o" by (simp add: default_options_def)
  have h2: "\<forall>k < nat (retry ?o). \<exists>e'. transport_call ?o ''/items'' None ?i None ?s k = Rejected e'"
    by (simp add: transport_call_def)
  have h3: "transport_call ?o ''/items'' None ?i None ?s (nat (retry ?o)) = Rejected (AxiosError ''last'')"
    by (simp add: transport_call_def r)
  have h4: "\<not> axios_isCancel (Some (AxiosError ''last''))" by simp
  from final_error_reported_once [OF h1 h2 h3 h4]
  have e: "error (fst (execute ?o ''/items'' None ?i None ?s)) = Some (AxiosError ''last'')"
    and c: "calls (fst (execute ?o ''/items'' None ?i None ?s)) =
      calls ?s @ OnError (AxiosError ''last'') # (if onFinish ?o then [OnFinish] else [])"
    by blast+
  have "calls ?s @ OnError (AxiosError ''last'') # (if onFinish ?o then [OnFinish] else [])
      = [OnError (AxiosError ''last'')]"
    by (simp add: initial_def default_options_def)
  with c have c': "calls (fst (execute ?o ''/items'' None ?i None ?s)) = [OnError (AxiosError ''last'')]"
    by simp
  from h1 e c' show ?thesis by blast
qed

subsection \<open>The cancellation handle\<close>

text \<open>
  Claim C6. Every call of \<open>execute\<close>, whatever the options, the configuration, the payload
  and the state, creates a controller that did not exist before (its number is the number
  of controllers created so far, and it is not aborted), stores it in the variable
  \<open>controller\<close>, and hands the transport a configuration whose \<open>signal\<close> is the signal of
  that controller, also when the configuration or the payload brought a \<open>signal\<close> of their
  own.
\<close>

theorem fresh_handle_signal:
  "controller (fst (execute_start opts url config arg s)) = Some (length (controllers s)) \<and>
   length (controllers (fst (execute_start opts url config arg s))) = Suc (length (controllers s)) \<and>
   \<not> controllers (fst (execute_start opts url config arg s)) ! length (controllers s) \<and>
   get (snd (snd (execute_start opts url config arg s))) ''signal'' = JSignal (length (controllers s))"
  by (simp add: execute_start_controllers execute_start_request Let_def request_config_signal
      length_controllers_cancel nth_append)

subsection \<open>The default payload\<close>

lemma execute_start_default:
  "execute_start opts url config None s =
     execute_start opts url config
       (Some (case defaultPayload opts of None \<Rightarrow> [] | Some d \<Rightarrow> d)) s"
  by (simp add: execute_start_def split: option.splits)

lemma execute_start_explicit:
  "execute_start (opts\<lparr> payload := q \<rparr>) url config (Some p) s =
     execute_start opts url config (Some p) s"
  by (simp add: execute_start_def)

lemma execute_finish_callbacks:
  "onSuccess opts = onSuccess opts' \<Longrightarrow> onError opts = onError opts' \<Longrightarrow>
   onFinish opts = onFinish opts' \<Longrightarrow> execute_finish opts r s = execute_finish opts' r s"
  by (simp add: execute_finish_def Let_def split: option.splits)

lemma execute_by_start:
  assumes "execute_start opts url config arg s = execute_start opts' url config arg' s"
    and "retry opts = retry opts'" and "onSuccess opts = onSuccess opts'"
    and "onError opts = onError opts'" and "onFinish opts = onFinish opts'"
  shows "execute opts url config instance arg s = execute opts' url config instance arg' s"
proof -
  have "request_result opts url config instance arg s =
        request_result opts' url config instance arg' s"
    using assms(1,2) by (simp add: request_result_def transport_call_def)
  with assms(1) execute_finish_callbacks [OF assms(3,4,5)] show ?thesis
    by (simp add: execute_def)
qed

text \<open>
  Claim C7. A call of \<open>execute\<close> with no argument behaves as the call with the default
  payload as its argument: the value the function returns when the option \<open>payload\<close> is a
  function, the option itself when it is a value. A call with an argument \<open>p\<close> does not
  depend on the option \<open>payload\<close>, and its request is built from \<open>p\<close>.
\<close>

theorem default_payload_used:
  "(payload opts = Some (PayloadFn f) \<longrightarrow>
      execute opts url config instance None s = execute opts url config instance (Some (f ())) s \<and>
      execute_start opts url config None s = execute_start opts url config (Some (f ())) s) \<and>
   (payload opts = Some (PayloadValue v) \<longrightarrow>
      execute opts url config instance None s = execute opts url config instance (Some v) s \<and>
      execute_start opts url config None s = execute_start opts url config (Some v) s) \<and>
   execute (opts\<lparr> payload := q \<rparr>) url config instance (Some p) s =
     execute opts url config instance (Some p) s \<and>
   snd (execute_start (opts\<lparr> payload := q \<rparr>) url config (Some p) s) =
     (request_url url p, request_config config p (length (controllers s)))"
proof -
  have a: "payload opts = Some (PayloadFn f) \<longrightarrow>
      execute_start opts url config None s = execute_start opts url config (Some (f ())) s"
    by (simp add: execute_start_default defaultPayload_def)
  have b: "payload opts = Some (PayloadValue v) \<longrightarrow>
      execute_start opts url config None s = execute_start opts url config (Some v) s"
    by (simp add: execute_start_default defaultPayload_def)
  have c: "execute (opts\<lparr> payload := q \<rparr>) url config instance (Some p) s =
     execute opts url config instance (Some p) s"
    by (rule execute_by_start) (simp_all add: execute_start_explicit)
  have d: "snd (execute_start (opts\<lparr> payload := q \<rparr>) url config (Some p) s) =
     (request_url url p, request_config config p (length (controllers s)))"
    by (simp add: execute_start_request)
  from a b c d show ?thesis
    by (auto intro: execute_by_start)
qed

text \<open>A default payload given as a function and the same one given as a value, with and
  without an argument to \<open>execute\<close>.\<close>

theorem default_payload_used_witness:
  "payload (default_options\<lparr> payload := Some (PayloadFn (\<lambda>u. [(''urlParams'', JObj [(''id'', JNum 5)])])) \<rparr>)
     = Some (PayloadFn (\<lambda>u. [(''urlParams'', JObj [(''id'', JNum 5)])])) \<and>
   snd (execute_start
     (default_options\<lparr> payload := Some (PayloadFn (\<lambda>u. [(''urlParams'', JObj [(''id'', JNum 5)])])) \<rparr>)
     ''/users/{id}'' None None (initial :: nat state)) = (''/users/5'', [(''signal'', JSignal 0)]) \<and>
   payload (default_options\<lparr> payload := Some (PayloadValue [(''urlParams'', JObj [(''id'', JNum 5)])]) \<rparr>)
     = Some (PayloadValue [(''urlParams'', JObj [(''id'', JNum 5)])]) \<and>
   snd (execute_start
     (default_options\<lparr> payload := Some (PayloadValue [(''urlParams'', JObj [(''id'', JNum 5)])]) \<rparr>)
     ''/users/{id}'' None None (initial :: nat state)) = (''/users/5'', [(''signal'', JSignal 0)]) \<and>
   snd (execute_start
     (default_options\<lparr> payload := Some (PayloadValue [(''urlParams'', JObj [(''id'', JNum 5)])]) \<rparr>)
     ''/users/{id}'' None (Some [(''urlParams'', JObj [(''id'', JNum 8)])]) (initial :: nat state))
       = (''/users/8'', [(''signal'', JSignal 0)])"
proof -
  let ?d = "[(''urlParams'', JObj [(''id'', JNum 5)])]"
  let ?f = "\<lambda>u::unit. ?d"
  let ?o = "default_options\<lparr> payload := Some (PayloadFn ?f) \<rparr>"
  let ?o' = "default_options\<lparr> payload := Some (PayloadValue ?d) \<rparr>"
  let ?i = "(\<lambda>u c k. Rejected (AxiosError ''down'')) :: nat transport"
  let ?s = "initial :: nat state"
  have h: "payload ?o = Some (PayloadFn ?f)" by simp
  have h': "payload ?o' = Some (PayloadValue ?d)" by simp
  have u5: "request_url ''/users/{id}'' ?d = ''/users/5''"
    by (simp add: request_url_def isDynamicURL_def match_here_def is_word_def get_def digits.simps)
  have u8: "request_url ''/users/{id}'' [(''urlParams'', JObj [(''id'', JNum 8)])] = ''/users/8''"
    by (simp add: request_url_def isDynamicURL_def match_here_def is_word_def get_def digits.simps)
  have c: "request_config None [(''urlParams'', JObj [(''id'', JNum n)])] 0 = [(''signal'', JSignal 0)]"
    for n
    by (simp add: request_config_def rest_without_def)
  have l: "length (controllers ?s) = 0" by (simp add: initial_def)
  have explicit: "snd (execute_start opts ''/users/{id}'' None (Some [(''urlParams'', JObj [(''id'', JNum n)])]) ?s)
      = (request_url ''/users/{id}'' [(''urlParams'', JObj [(''id'', JNum n)])], [(''signal'', JSignal 0)])"
    for opts n
    using c [of n] l by (simp add: execute_start_request)
  have 1: "execute_start ?o ''/users/{id}'' None None ?s =
        execute_start ?o ''/users/{id}'' None (Some (?f ())) ?s"
    using default_payload_used [of ?o ?f "''/users/{id}''" None ?i ?s] h by blast
  have 2: "execute_start ?o' ''/users/{id}'' None None ?s =
        execute_start ?o' ''/users/{id}'' None (Some ?d) ?s"
    using default_payload_used [of ?o' _ "''/users/{id}''" None ?i ?s ?d] h' by blast
  from 1 have a: "snd (execute_start ?o ''/users/{id}'' None None ?s) = (''/users/5'', [(''signal'', JSignal 0)])"
    using explicit [of ?o 5] u5 by simp
  from 2 have b: "snd (execute_start ?o' ''/users/{id}'' None None ?s) = (''/users/5'', [(''signal'', JSignal 0)])"
    using explicit [of ?o' 5] u5 by simp
  have d: "snd (execute_start ?o' ''/users/{id}'' None (Some [(''urlParams'', JObj [(''id'', JNum 8)])]) ?s)
      = (''/users/8'', [(''signal'', JSignal 0)])"
    using explicit [of ?o' 8] u8 by simp
  from h a h' b d show ?thesis by blast
qed

subsection \<open>The early return\<close>

text \<open>
  Claim C8, amended. When the request of a call ends with a cancellation, the second half
  of \<open>execute\<close> writes nothing: the state of the hook, with all five cells and the callback
  record, is what it was when the request settled, whatever ran since the call started,
  and the result is \<open>{ isCancel: true }\<close>. When nothing ran between the two halves of the
  call, the response, data and error cells and the callback record are as before the call,
  \<open>isLoading\<close> is true and \<open>isFinished\<close> is false.
\<close>

theorem cancelled_request_writes_nothing:
  assumes "axios_isCancel (snd r)"
  shows "execute_finish opts r s = (s, ExecuteReturn None None None True) \<and>
         (h \<in> set waiting \<longrightarrow>
            step opts url config (s, waiting) (Settle h r) = (s, remove1 h waiting)) \<and>
         (r = fst (request_result opts url config instance arg s0) \<longrightarrow>
            response (fst (execute opts url config instance arg s0)) = response s0 \<and>
            data (fst (execute opts url config instance arg s0)) = data s0 \<and>
            error (fst (execute opts url config instance arg s0)) = error s0 \<and>
            calls (fst (execute opts url config instance arg s0)) = calls s0 \<and>
            isLoading (fst (execute opts url config instance arg s0)) \<and>
            \<not> isFinished (fst (execute opts url config instance arg s0)))"
proof -
  have a: "execute_finish opts r s' = (s', ExecuteReturn None None None True)" for s'
    using assms by (rule execute_finish_cancel)
  have b: "h \<in> set waiting \<longrightarrow>
      step opts url config (s, waiting) (Settle h r) = (s, remove1 h waiting)"
    by (simp add: a)
  have c: "fst (execute opts url config instance arg s0) = fst (execute_start opts url config arg s0)"
    if "r = fst (request_result opts url config instance arg s0)"
    unfolding execute_def that [symmetric] by (simp add: a)
  from a b c execute_start_cells [of opts url config arg s0] show ?thesis
    by simp
qed

text \<open>A call of \<open>execute\<close> on a new instance whose request is cancelled: settled as a step
  of the system, and as a whole call.\<close>

theorem cancelled_request_writes_nothing_witness:
  "axios_isCancel (snd (None :: nat AxiosResponse option, Some (CanceledError ''canceled''))) \<and>
   (0::nat) \<in> set [0] \<and>
   step default_options ''/items'' None
     (fst (execute_start default_options ''/items'' None None (initial :: nat state)), [0])
     (Settle 0 (None, Some (CanceledError ''canceled'')))
   = (\<lparr> response = None, data = None, error = None, isLoading = True, isFinished = False,
        controller = Some 0, controllers = [False], calls = [] \<rparr>, []) \<and>
   fst (request_result default_options ''/items'' None
     (\<lambda>u c k. Rejected (CanceledError ''canceled'')) None (initial :: nat state))
   = (None, Some (CanceledError ''canceled'')) \<and>
   execute default_options ''/items'' None
     (\<lambda>u c k. Rejected (CanceledError ''canceled'')) None (initial :: nat state)
   = (\<lparr> response = None, data = None, error = None, isLoading = True, isFinished = False,
        controller = Some 0, controllers = [False], calls = [] \<rparr>,
      ExecuteReturn None None None True)"
proof -
  let ?r = "(None :: nat AxiosResponse option, Some (CanceledError ''canceled''))"
  let ?i = "(\<lambda>u c k. Rejected (CanceledError ''canceled'')) :: nat transport"
  let ?s0 = "initial :: nat state"
  let ?s1 = "fst (execute_start default_options ''/items'' None None ?s0)"
  let ?v = "\<lparr> response = None, data = None :: nat option, error = None, isLoading = True,
        isFinished = False, controller = Some 0, controllers = [False], calls = [] \<rparr>"
  have h: "axios_isCancel (snd ?r)" by simp
  have w: "(0::nat) \<in> set [0]" by simp
  have rr: "fst (request_result default_options ''/items'' None ?i None ?s0) = ?r"
    by (simp add: request_result_def transport_call_def executeWithRetry.simps default_options_def)
  have s1: "?s1 = ?v"
    by (simp add: execute_start_def default_options_def initial_def defaultPayload_def Let_def)
  note t = cancelled_request_writes_nothing [OF h, of default_options ?s1 0 "[0]" "''/items''" None
      ?i None ?s0]
  from t w have st: "step default_options ''/items'' None (?s1, [0]) (Settle 0 ?r) = (?s1, remove1 0 [0])"
    by blast
  from t have fin: "execute_finish default_options ?r ?s1 = (?s1, ExecuteReturn None None None True)"
    by blast
  have ex: "execute default_options ''/items'' None ?i None ?s0 = (?v, ExecuteReturn None None None True)"
    using fin rr s1 by (simp add: execute_def)
  from st s1 have st': "step default_options ''/items'' None (?s1, [0]) (Settle 0 ?r) = (?v, [])"
    by simp
  from h w st' rr ex show ?thesis by blast
qed

text \<open>
  The claim as stated has \<open>isLoading\<close> true and \<open>isFinished\<close> false after every cancelled
  request. Two calls of \<open>execute\<close> overlap; the request of the first succeeds, which sets
  \<open>isLoading\<close> to false and \<open>isFinished\<close> to true; \<open>cancel\<close> then aborts the controller of
  the second call, which still waits; the second request ends with the cancellation, and
  the two flags stay as the first call left them.
\<close>

theorem cancelled_request_keeps_flags_counterexample:
  "controllers (fst (run default_options ''/items'' None
      [Execute None, Execute None, Settle 0 (Some (AxiosResponse (1::nat) 200), None), Cancel])) ! 1 \<and>
   1 \<in> set (snd (run default_options ''/items'' None
      [Execute None, Execute None, Settle 0 (Some (AxiosResponse (1::nat) 200), None), Cancel])) \<and>
   \<not> isLoading (fst (run default_options ''/items'' None
      [Execute None, Execute None, Settle 0 (Some (AxiosResponse (1::nat) 200), None), Cancel,
       Settle 1 (None, Some (CanceledError ''canceled''))])) \<and>
   isFinished (fst (run default_options ''/items'' None
      [Execute None, Execute None, Settle 0 (Some (AxiosResponse (1::nat) 200), None), Cancel,
       Settle 1 (None, Some (CanceledError ''canceled''))]))"
  by (simp add: run_def useAxios_def default_options_def initial_def execute_start_def
      execute_finish_def cancel_def abort_current_def defaultPayload_def record_call_def Let_def)

subsection \<open>Automatic cancellation of the previous request\<close>

text \<open>While a request is loading, \<open>cancel\<close> does nothing.\<close>

lemma cancel_while_loading: "isLoading s \<Longrightarrow> cancel s = s"
  by (simp add: cancel_def)

text \<open>So a call of \<open>execute\<close> made while a request is loading aborts no controller, with
  or without \<open>autoCancelLastReq\<close>.\<close>

lemma execute_while_loading:
  "isLoading s \<Longrightarrow>
   controllers (fst (execute_start opts url config arg s)) = controllers s @ [False]"
  by (simp add: execute_start_controllers cancel_while_loading)

text \<open>
  Claim C1. With \<open>autoCancelLastReq\<close> set, a second call of \<open>execute\<close> is made while the
  first call waits for its request. The call of \<open>cancel\<close> in line 68 finds \<open>isLoading\<close> true
  and returns in line 97, so the controller of the first call is not aborted: both
  controllers are unaborted, both calls wait, and two requests are in flight.
\<close>

theorem autoCancel_leaves_previous_request:
  "run (default_options\<lparr> autoCancelLastReq := True \<rparr>) ''/items'' None [Execute None, Execute None]
     = (\<lparr> response = None, data = None :: nat option, error = None, isLoading = True,
          isFinished = False, controller = Some 1, controllers = [False, False], calls = [] \<rparr>,
        [0, 1]) \<and>
   in_flight (run (default_options\<lparr> autoCancelLastReq := True \<rparr>) ''/items'' None
     [Execute None, Execute None] :: nat system) = [0, 1]"
  by (simp add: run_def useAxios_def default_options_def initial_def execute_start_def
      cancel_def abort_current_def defaultPayload_def Let_def in_flight_def
      request_url_def isDynamicURL_def match_here_def)

subsection \<open>URL templates\<close>

text \<open>The leftmost placeholder of a template is replaced by the string form of the value
  of its key in \<open>urlParams\<close>, which is \<open>undefined\<close> for an absent key.\<close>

lemma not_word_brace: "\<not> is_word (CHR ''}'')"
  by (simp add: is_word_def)

lemma match_here_placeholder:
  assumes "key \<noteq> []" and "\<forall>c \<in> set key. is_word c"
  shows "match_here (CHR ''{'' # key @ CHR ''}'' # post) = Some (key, post)"
proof -
  have t: "takeWhile is_word (key @ CHR ''}'' # post) = key"
    using assms(2) by (simp add: takeWhile_append2 not_word_brace)
  have d: "dropWhile is_word (key @ CHR ''}'' # post) = CHR ''}'' # post"
    using assms(2) by (simp add: dropWhile_append2 not_word_brace)
  show ?thesis
    using assms(1) unfolding match_here_def by (simp only: t d Let_def list.case) simp
qed

lemma match_here_no_brace: "CHR ''{'' \<noteq> c \<Longrightarrow> match_here (c # cs) = None"
  by (simp add: match_here_def)

lemma replace_re_leftmost:
  assumes "CHR ''{'' \<notin> set pre" and "key \<noteq> []" and "\<forall>c \<in> set key. is_word c"
  shows "replace_re f (pre @ CHR ''{'' # key @ CHR ''}'' # post) = pre @ f key @ post"
  using assms(1)
proof (induction pre)
  case Nil
  then show ?case
    using match_here_placeholder [OF assms(2,3), of post] by simp
next
  case (Cons c pre)
  then show ?case by (simp add: match_here_no_brace)
qed

lemma test_re_placeholder:
  assumes "key \<noteq> []" and "\<forall>c \<in> set key. is_word c"
  shows "test_re (pre @ CHR ''{'' # key @ CHR ''}'' # post)"
proof (induction pre)
  case Nil
  then show ?case
    using match_here_placeholder [OF assms, of post] by simp
next
  case (Cons c pre)
  then show ?case by (simp split: option.splits)
qed

lemma leftmost_placeholder_replaced:
  assumes "CHR ''{'' \<notin> set pre" and "key \<noteq> []" and "\<forall>c \<in> set key. is_word c"
    and "get p ''urlParams'' = JObj ps"
  shows "request_url (pre @ CHR ''{'' # key @ CHR ''}'' # post) p =
     pre @ String_js (get ps key) @ post"
  using assms(4) test_re_placeholder [OF assms(2,3), of pre post]
    replace_re_leftmost [OF assms(1,2,3)]
  by (simp add: request_url_def isDynamicURL_def)

lemma leftmost_placeholder_absent_key:
  assumes "CHR ''{'' \<notin> set pre" and "key \<noteq> []" and "\<forall>c \<in> set key. is_word c"
    and "get p ''urlParams'' = JObj ps" and "map_of ps key = None"
  shows "request_url (pre @ CHR ''{'' # key @ CHR ''}'' # post) p = pre @ ''undefined'' @ post"
  using leftmost_placeholder_replaced [OF assms(1,2,3,4), of post] assms(5)
  by (simp add: get_def)

text \<open>
  Claim C5. A template with two placeholders and a payload whose \<open>urlParams\<close> has a value
  for each: the first placeholder is replaced and the second one reaches the transport
  as it is written.
\<close>

theorem only_first_placeholder_replaced:
  "fst (snd (execute_start default_options ''/users/{id}/posts/{pid}'' None
     (Some [(''urlParams'', JObj [(''id'', JNum 1), (''pid'', JNum 2)])]) (initial :: nat state)))
   = ''/users/1/posts/{pid}''"
  by (simp add: execute_start_request request_url_def isDynamicURL_def match_here_def is_word_def
      get_def digits.simps)

text \<open>
  Claim C9. A template with two placeholders and \<open>urlParams\<close> without the key \<open>b\<close>: when
  \<open>{b}\<close> comes second it is left as it is written; when it comes first it is
  replaced by \<open>undefined\<close>.
\<close>

theorem absent_key_second_placeholder_kept:
  "fst (snd (execute_start default_options ''/{a}/{b}'' None
     (Some [(''urlParams'', JObj [(''a'', JNum 1)])]) (initial :: nat state))) = ''/1/{b}'' \<and>
   fst (snd (execute_start default_options ''/{b}/{a}'' None
     (Some [(''urlParams'', JObj [(''a'', JNum 1)])]) (initial :: nat state))) = ''/undefined/{a}''"
  by (simp add: execute_start_request request_url_def isDynamicURL_def match_here_def is_word_def
      get_def digits.simps)

subsection \<open>The configuration of the request\<close>

lemma length_heap_assign: "length (heap_assign hp t srcs) = length hp"
  by (induction hp t srcs rule: heap_assign.induct) simp_all

lemma heap_assign_other: "a \<noteq> t \<Longrightarrow> heap_assign hp t srcs ! a = hp ! a"
  by (induction hp t srcs rule: heap_assign.induct) simp_all

lemma heap_assign_target:
  "t < length hp \<Longrightarrow> Some t \<notin> set srcs \<Longrightarrow>
   heap_assign hp t srcs ! t = Object_assign (hp ! t) (map (map_option (\<lambda>a. hp ! a)) srcs)"
proof (induction hp t srcs rule: heap_assign.induct)
  case (1 hp target)
  then show ?case by simp
next
  case (2 hp target srcs)
  then show ?case by simp
next
  case (3 hp target a srcs)
  let ?hp = "hp[target := assign1 (hp ! target) (hp ! a)]"
  have same: "map (map_option (\<lambda>b. ?hp ! b)) srcs = map (map_option (\<lambda>b. hp ! b)) srcs"
  proof (rule map_cong [OF refl])
    fix x assume "x \<in> set srcs"
    with "3.prems" have "x \<noteq> Some target" by auto
    then show "map_option (\<lambda>b. ?hp ! b) x = map_option (\<lambda>b. hp ! b) x"
      by (cases x) auto
  qed
  from "3.prems" have "heap_assign ?hp target srcs ! target =
      Object_assign (?hp ! target) (map (map_option (\<lambda>b. ?hp ! b)) srcs)"
    by (intro "3.IH") auto
  then have "heap_assign ?hp target srcs ! target =
      Object_assign (?hp ! target) (map (map_option (\<lambda>b. hp ! b)) srcs)"
    unfolding same .
  moreover have "?hp ! target = assign1 (hp ! target) (hp ! a)"
    using "3.prems" by simp
  ultimately show ?case by simp
qed

lemma heap_request_config_frame:
  assumes "a < length hp"
  shows "fst (heap_request_config hp config arg h) ! a = hp ! a"
  using assms
  by (cases arg) (simp_all add: heap_request_config_def Let_def heap_assign_other nth_append)

lemma heap_request_config_result:
  assumes "case config of None \<Rightarrow> True | Some a \<Rightarrow> a < length hp"
    and "case arg of None \<Rightarrow> True | Some a \<Rightarrow> a < length hp"
  shows "fst (heap_request_config hp config arg h) ! snd (heap_request_config hp config arg h) =
     request_config (map_option (\<lambda>a. hp ! a) config)
       (case arg of None \<Rightarrow> [] | Some a \<Rightarrow> hp ! a) h"
proof -
  define hp1 where "hp1 = (case arg of None \<Rightarrow> hp @ [[]] | Some a \<Rightarrow> hp)"
  define p where "p = (case arg of None \<Rightarrow> length hp | Some a \<Rightarrow> a)"
  define hp4 where
    "hp4 = ((hp1 @ [rest_without ''urlParams'' (hp1 ! p)]) @ [[]]) @ [[(''signal'', JSignal h)]]"
  define target where "target = Suc (length hp1)"
  have len: "length hp \<le> length hp1" by (simp add: hp1_def split: option.splits)
  have pv: "hp1 ! p = (case arg of None \<Rightarrow> [] | Some a \<Rightarrow> hp ! a)"
    using assms(2) by (simp add: hp1_def p_def split: option.splits)
  have cfg: "map_option (\<lambda>a. hp4 ! a) config = map_option (\<lambda>a. hp ! a) config"
    using assms(1) len
    by (cases config) (auto simp: hp4_def hp1_def nth_append split: option.splits)
  have unf: "heap_request_config hp config arg h =
      (heap_assign hp4 target [config, Some (length hp1), Some (Suc (Suc (length hp1)))], target)"
    by (simp add: heap_request_config_def Let_def hp1_def p_def hp4_def target_def)
  have notin: "Some target \<notin> set [config, Some (length hp1), Some (Suc (Suc (length hp1)))]"
    using assms(1) len by (cases config) (auto simp: target_def)
  have tl: "target < length hp4" by (simp add: hp4_def target_def)
  have "heap_assign hp4 target [config, Some (length hp1), Some (Suc (Suc (length hp1)))] ! target =
      Object_assign (hp4 ! target)
        (map (map_option (\<lambda>a. hp4 ! a)) [config, Some (length hp1), Some (Suc (Suc (length hp1)))])"
    by (rule heap_assign_target [OF tl notin])
  also have "hp4 ! target = []" by (simp add: hp4_def target_def nth_append)
  also have "map (map_option (\<lambda>a. hp4 ! a)) [config, Some (length hp1), Some (Suc (Suc (length hp1)))]
      = [map_option (\<lambda>a. hp ! a) config, Some (rest_without ''urlParams'' (hp1 ! p)),
         Some [(''signal'', JSignal h)]]"
    using cfg by (simp add: hp4_def nth_append)
  finally show ?thesis
    by (simp add: unf pv request_config_def)
qed

lemma map_of_request_config:
  assumes "distinct (map fst p)"
    and "case config of None \<Rightarrow> True | Some cf \<Rightarrow> distinct (map fst cf)"
  shows "map_of (request_config config p h) =
     (case config of None \<Rightarrow> Map.empty | Some cf \<Rightarrow> map_of cf)
       ++ (map_of p)(''urlParams'' := None) ++ [''signal'' \<mapsto> JSignal h]"
  using assms
  by (cases config)
    (simp_all add: request_config_def map_of_assign1 map_of_put distinct_rest_without
      map_of_rest_without)

text \<open>
  Claim C10. For a payload \<open>p\<close> and a configuration that are plain objects (each key
  once), the configuration handed to the transport is the hook's configuration,
  overridden by the payload without its \<open>urlParams\<close>, overridden by the signal of the new
  controller; in particular \<open>params\<close> and \<open>data\<close> of the payload, when present, are the
  ones of the result. On the heap, where the payload and the configuration are objects
  at addresses \<open>pa\<close> and \<open>ca\<close>, building the configuration leaves every object that
  existed before as it was, and the new object is the one just described.
\<close>

theorem request_config_merge:
  assumes "distinct (map fst p)"
    and "case config of None \<Rightarrow> True | Some cf \<Rightarrow> distinct (map fst cf)"
  shows "map_of (snd (snd (execute_start opts url config (Some p) s))) =
           (case config of None \<Rightarrow> Map.empty | Some cf \<Rightarrow> map_of cf)
             ++ (map_of p)(''urlParams'' := None)
             ++ [''signal'' \<mapsto> JSignal (length (controllers s))] \<and>
         (k \<in> {''params'', ''data''} \<and> map_of p k = Some v \<longrightarrow>
            map_of (snd (snd (execute_start opts url config (Some p) s))) k = Some v) \<and>
         (pa < length hp \<and> hp ! pa = p \<and>
          (case ca of None \<Rightarrow> config = None | Some a \<Rightarrow> a < length hp \<and> config = Some (hp ! a)) \<longrightarrow>
            (\<forall>a < length hp.
               fst (heap_request_config hp ca (Some pa) (length (controllers s))) ! a = hp ! a) \<and>
            fst (heap_request_config hp ca (Some pa) (length (controllers s))) !
              snd (heap_request_config hp ca (Some pa) (length (controllers s))) =
            snd (snd (execute_start opts url config (Some p) s)))"
proof -
  let ?h = "length (controllers s)"
  have c: "snd (snd (execute_start opts url config (Some p) s)) = request_config config p ?h"
    by (simp add: execute_start_request)
  have m: "map_of (request_config config p ?h) =
      (case config of None \<Rightarrow> Map.empty | Some cf \<Rightarrow> map_of cf)
        ++ (map_of p)(''urlParams'' := None) ++ [''signal'' \<mapsto> JSignal ?h]"
    using assms by (rule map_of_request_config)
  have pd: "map_of (request_config config p ?h) k = Some v"
    if "k \<in> {''params'', ''data''} \<and> map_of p k = Some v"
    using that by (auto simp: m map_add_def)
  have hpres: "fst (heap_request_config hp ca (Some pa) ?h) !
        snd (heap_request_config hp ca (Some pa) ?h) = request_config config p ?h"
    if "pa < length hp \<and> hp ! pa = p \<and>
        (case ca of None \<Rightarrow> config = None | Some a \<Rightarrow> a < length hp \<and> config = Some (hp ! a))"
  proof -
    from that have 1: "case ca of None \<Rightarrow> True | Some a \<Rightarrow> a < length hp"
      by (auto split: option.splits)
    from that have 2: "case Some pa of None \<Rightarrow> True | Some a \<Rightarrow> a < length hp" by simp
    from that have 3: "map_option (\<lambda>a. hp ! a) ca = config"
      by (auto split: option.splits)
    from heap_request_config_result [OF 1 2, of ?h] 3 that show ?thesis by simp
  qed
  from c m pd hpres heap_request_config_frame [of _ hp ca "Some pa" ?h] show ?thesis
    by simp
qed

text \<open>A configuration and a payload that both carry \<open>params\<close>.\<close>

theorem request_config_merge_witness:
  "distinct (map fst [(''params'', JObj [(''page'', JNum 2)]), (''urlParams'', JObj [(''id'', JNum 5)])]) \<and>
   distinct (map fst [(''params'', JObj [(''page'', JNum 1)]), (''method'', JStr ''get'')]) \<and>
   snd (snd (execute_start default_options ''/users/{id}''
     (Some [(''params'', JObj [(''page'', JNum 1)]), (''method'', JStr ''get'')])
     (Some [(''params'', JObj [(''page'', JNum 2)]), (''urlParams'', JObj [(''id'', JNum 5)])])
     (initial :: nat state)))
   = [(''params'', JObj [(''page'', JNum 2)]), (''method'', JStr ''get''), (''signal'', JSignal 0)] \<and>
   fst (heap_request_config
     [[(''params'', JObj [(''page'', JNum 1)]), (''method'', JStr ''get'')],
      [(''params'', JObj [(''page'', JNum 2)]), (''urlParams'', JObj [(''id'', JNum 5)])]]
     (Some 0) (Some 1) 0) ! 0 = [(''params'', JObj [(''page'', JNum 1)]), (''method'', JStr ''get'')] \<and>
   fst (heap_request_config
     [[(''params'', JObj [(''page'', JNum 1)]), (''method'', JStr ''get'')],
      [(''params'', JObj [(''page'', JNum 2)]), (''urlParams'', JObj [(''id'', JNum 5)])]]
     (Some 0) (Some 1) 0) ! 1 = [(''params'', JObj [(''page'', JNum 2)]), (''urlParams'', JObj [(''id'', JNum 5)])]"
proof -
  let ?p = "[(''params'', JObj [(''page'', JNum 2)]), (''urlParams'', JObj [(''id'', JNum 5)])]"
  let ?cf = "[(''params'', JObj [(''page'', JNum 1)]), (''method'', JStr ''get'')]"
  have h1: "distinct (map fst ?p)" by simp
  have h2: "case Some ?cf of None \<Rightarrow> True | Some cf \<Rightarrow> distinct (map fst cf)" by simp
  have e: "snd (snd (execute_start default_options ''/users/{id}'' (Some ?cf) (Some ?p)
      (initial :: nat state))) =
      [(''params'', JObj [(''page'', JNum 2)]), (''method'', JStr ''get''), (''signal'', JSignal 0)]"
    by (simp add: execute_start_request request_config_def rest_without_def initial_def)
  have l: "length (controllers (initial :: nat state)) = 0" by (simp add: initial_def)
  from request_config_merge [OF h1 h2, of default_options "''/users/{id}''" "initial :: nat state"
      "''params''" "JObj [(''page'', JNum 2)]" 1 "[?cf, ?p]" "Some 0"]
  have "\<forall>a < 2. fst (heap_request_config [?cf, ?p] (Some 0) (Some 1) 0) ! a = [?cf, ?p] ! a"
    by (simp add: l)
  then have "fst (heap_request_config [?cf, ?p] (Some 0) (Some 1) 0) ! 0 = ?cf \<and>
             fst (heap_request_config [?cf, ?p] (Some 0) (Some 1) 0) ! 1 = ?p"
    by simp
  with h1 e show ?thesis by simp
qed

end
